theory Spec2Isabelle
  imports Main
begin

section \<open>The page: document, framework state, bound handlers\<close>

text \<open>
  \<^verbatim>\<open>cds/modules/theme/static/js/main.js\<close> registers two DOM-ready callbacks. The first
  calls \<^verbatim>\<open>angular.bootstrap\<close> three times; the second binds a focus and a blur handler to
  the element with id \<^verbatim>\<open>cds-navbar-form-input\<close>, and these handlers add and remove the
  class \<^verbatim>\<open>cds-active-search\<close> on the elements selected by \<^verbatim>\<open>.cds-navbar-form\<close>.

  The file only looks elements up by id and by class, so the document is the list of its
  elements in document order, each with its id attribute and the tokens of its class
  attribute (in order, repetitions kept). An element is referred to by its position.
\<close>

type_synonym node = nat

record element =
  elem_id :: "string option"
  class_list :: "string list"

type_synonym document = "element list"

subsection \<open>The DOM and helper-library primitives the file calls\<close>

text \<open>
  Modelled from the spec: the browser's \<^verbatim>\<open>document.getElementById(i)\<close>, which locates an
  element by identifier, is not part of this repository. It gives the first element in
  document order whose id is \<open>i\<close>, and \<^verbatim>\<open>null\<close> (here \<open>None\<close>) when there is none.
\<close>

definition getElementById :: "document \<Rightarrow> string \<Rightarrow> node option" where
  "getElementById d i = List.find (\<lambda>n. elem_id (d ! n) = Some i) [0..<length d]"

text \<open>
  Modelled from the spec: the helper library's "find element(s) by selector" is not part
  of this repository. \<^verbatim>\<open>$('#i')\<close> is the selection holding the element found by id, empty
  when there is none.
\<close>

definition select_id :: "document \<Rightarrow> string \<Rightarrow> node list" where
  "select_id d i = (case getElementById d i of None \<Rightarrow> [] | Some n \<Rightarrow> [n])"

text \<open>
  Modelled from the spec: \<^verbatim>\<open>$('.c')\<close>, the same library's selection by class, holds
  every element whose class attribute has the token \<open>c\<close>, in document order.
\<close>

definition select_class :: "document \<Rightarrow> string \<Rightarrow> node list" where
  "select_class d c = filter (\<lambda>n. c \<in> set (class_list (d ! n))) [0..<length d]"

text \<open>
  Modelled from the spec: the helper library's add-class and remove-class primitives are
  not part of this repository. On the tokens of one class attribute, adding a class that
  is already present is a no-op and otherwise appends it; removing takes out every
  occurrence, so removing an absent class is a no-op.
\<close>

definition add_token :: "string \<Rightarrow> string list \<Rightarrow> string list" where
  "add_token c cs = (if c \<in> set cs then cs else cs @ [c])"

definition remove_token :: "string \<Rightarrow> string list \<Rightarrow> string list" where
  "remove_token c cs = filter (\<lambda>x. x \<noteq> c) cs"

text \<open>
  Modelled from the spec: both primitives act on every element of the selection, one after
  the other, and leave the rest of the document alone.
\<close>

definition on_each :: "(string list \<Rightarrow> string list) \<Rightarrow> node list \<Rightarrow> document \<Rightarrow> document" where
  "on_each f sel d = fold (\<lambda>n doc. doc[n := (doc ! n)\<lparr>class_list := f (class_list (doc ! n))\<rparr>]) sel d"

definition addClass :: "string \<Rightarrow> node list \<Rightarrow> document \<Rightarrow> document" where
  "addClass c sel d = on_each (add_token c) sel d"

definition removeClass :: "string \<Rightarrow> node list \<Rightarrow> document \<Rightarrow> document" where
  "removeClass c sel d = on_each (remove_token c) sel d"

subsection \<open>The framework's bootstrap entry point\<close>

text \<open>
  Modelled from the spec: \<^verbatim>\<open>angular.bootstrap(element, modules)\<close> belongs to the external
  framework, which activates the named modules against the given root element or fails
  according to its own rules. A call is recorded with its two arguments. Whether a call
  returns or throws is the framework's own contract, so it is a parameter: \<open>fw cs c\<close>
  tells whether the call \<open>c\<close> returns normally after the earlier calls \<open>cs\<close>. A throw
  ends the running callback: the statements after it are skipped. What the framework does
  inside the container is not modelled.
\<close>

type_synonym bootstrap_call = "node option \<times> string list"

type_synonym framework = "bootstrap_call list \<Rightarrow> bootstrap_call \<Rightarrow> bool"

record ng_state =
  calls :: "bootstrap_call list"
  threw :: bool

definition bootstrap :: "framework \<Rightarrow> node option \<Rightarrow> string list \<Rightarrow> ng_state \<Rightarrow> ng_state" where
  "bootstrap fw el ms s =
     (if threw s then s
      else \<lparr>calls = calls s @ [(el, ms)], threw = \<not> fw (calls s) (el, ms)\<rparr>)"

subsection \<open>The callbacks of main.js\<close>

text \<open>The body of the callback given to \<^verbatim>\<open>angular.element(document).ready\<close>.\<close>

definition bootstrap_modules :: "framework \<Rightarrow> document \<Rightarrow> ng_state \<Rightarrow> ng_state" where
  "bootstrap_modules fw d s0 =
     (let s1 = bootstrap fw (getElementById d ''invenio-search'')
                 [''cds'', ''angular-loading-bar'', ''ngDialog'', ''invenioSearch''] s0;
          s2 = bootstrap fw (getElementById d ''cds-featured-video'')
                 [''cds'', ''invenioSearch''] s1;
          s3 = bootstrap fw (getElementById d ''cds-recent-videos'')
                 [''cds'', ''invenioSearch''] s2
      in s3)"

text \<open>The two handlers bound to the search input.\<close>

definition focus_handler :: "document \<Rightarrow> document" where
  "focus_handler d = addClass ''cds-active-search'' (select_class d ''cds-navbar-form'') d"

definition blur_handler :: "document \<Rightarrow> document" where
  "blur_handler d = removeClass ''cds-active-search'' (select_class d ''cds-navbar-form'') d"

text \<open>
  The page: the document, the bootstrap calls made so far, and the elements the focus and
  the blur handler are bound to (one entry for each binding).
\<close>

record page =
  dom :: document
  bootstrap_log :: "bootstrap_call list"
  focus_bound :: "node list"
  blur_bound :: "node list"

definition init_page :: "document \<Rightarrow> page" where
  "init_page d = \<lparr>dom = d, bootstrap_log = [], focus_bound = [], blur_bound = []\<rparr>"

text \<open>
  The body of the callback given to \<^verbatim>\<open>$(document).ready\<close>: \<^verbatim>\<open>.focus(f)\<close> binds \<open>f\<close> to
  every element of the selection and returns the selection, on which \<^verbatim>\<open>.blur(g)\<close> binds
  \<open>g\<close>.
\<close>

definition navbar_ready :: "page \<Rightarrow> page" where
  "navbar_ready p =
     (let sel = select_id (dom p) ''cds-navbar-form-input''
      in p\<lparr>focus_bound := focus_bound p @ sel, blur_bound := blur_bound p @ sel\<rparr>)"

subsection \<open>Events\<close>

text \<open>
  The events the page sees: each of the two ready callbacks running, a focus or a blur
  event on an element, and any event for which this file binds nothing. Focus and blur
  do not bubble: an event on element \<open>n\<close> runs the handlers bound to \<open>n\<close>, once for each
  binding.
\<close>

datatype event = BootstrapReady | NavbarReady | Focus node | Blur node | Other

fun fire :: "framework \<Rightarrow> event \<Rightarrow> page \<Rightarrow> page" where
  "fire fw BootstrapReady p =
     p\<lparr>bootstrap_log :=
         calls (bootstrap_modules fw (dom p) \<lparr>calls = bootstrap_log p, threw = False\<rparr>)\<rparr>"
| "fire fw NavbarReady p = navbar_ready p"
| "fire fw (Focus n) p = p\<lparr>dom := (focus_handler ^^ count_list (focus_bound p) n) (dom p)\<rparr>"
| "fire fw (Blur n) p = p\<lparr>dom := (blur_handler ^^ count_list (blur_bound p) n) (dom p)\<rparr>"
| "fire fw Other p = p"

definition run :: "framework \<Rightarrow> event list \<Rightarrow> page \<Rightarrow> page" where
  "run fw es p = fold (fire fw) es p"

text \<open>The focus, blur, focus sequence of handler runs.\<close>

definition focus_blur_focus :: "document \<Rightarrow> document" where
  "focus_blur_focus d = focus_handler (blur_handler (focus_handler d))"

subsection \<open>Sample pages\<close>

text \<open>
  A home page with the search form in the navigation bar and the two video containers, but
  no search results container; a page that has all three containers and two elements
  matching \<^verbatim>\<open>.cds-navbar-form\<close>; a page whose search form already has the active class;
  and a page with none of the elements the file looks for.
  \<open>always_returns\<close> is a framework none of whose calls throws, \<open>always_throws\<close> one whose
  calls all throw.
\<close>

definition home_page :: document where
  "home_page =
     [\<lparr>elem_id = None, class_list = [''navbar-form'', ''cds-navbar-form'']\<rparr>,
      \<lparr>elem_id = Some ''cds-navbar-form-input'', class_list = [''form-control'']\<rparr>,
      \<lparr>elem_id = Some ''cds-featured-video'', class_list = []\<rparr>,
      \<lparr>elem_id = Some ''cds-recent-videos'', class_list = []\<rparr>]"

definition full_page :: document where
  "full_page =
     [\<lparr>elem_id = None, class_list = [''navbar-form'', ''cds-navbar-form'']\<rparr>,
      \<lparr>elem_id = Some ''cds-navbar-form-input'', class_list = [''form-control'']\<rparr>,
      \<lparr>elem_id = Some ''invenio-search'', class_list = []\<rparr>,
      \<lparr>elem_id = Some ''cds-featured-video'', class_list = []\<rparr>,
      \<lparr>elem_id = Some ''cds-recent-videos'', class_list = []\<rparr>,
      \<lparr>elem_id = None, class_list = [''cds-active-search'', ''cds-navbar-form'']\<rparr>]"

definition focused_page :: document where
  "focused_page =
     [\<lparr>elem_id = None,
       class_list = [''navbar-form'', ''cds-navbar-form'', ''cds-active-search'']\<rparr>,
      \<lparr>elem_id = Some ''cds-navbar-form-input'', class_list = [''form-control'']\<rparr>]"

definition plain_page :: document where
  "plain_page = [\<lparr>elem_id = Some ''content'', class_list = [''container'']\<rparr>]"

definition always_returns :: framework where
  "always_returns l c = True"

definition always_throws :: framework where
  "always_throws l c = False"

section \<open>Facts about the primitives\<close>

lemma on_each_length: "length (on_each f sel d) = length d"
  unfolding on_each_def by (induction sel arbitrary: d) simp_all

lemma on_each_nth:
  "distinct sel \<Longrightarrow> i < length d \<Longrightarrow>
   on_each f sel d ! i =
     (if i \<in> set sel then (d ! i)\<lparr>class_list := f (class_list (d ! i))\<rparr> else d ! i)"
  unfolding on_each_def
proof (induction sel arbitrary: d)
  case Nil
  then show ?case by simp
next
  case (Cons n sel)
  then show ?case by (cases "i = n") auto
qed

lemma select_class_distinct: "distinct (select_class d c)"
  by (simp add: select_class_def)

lemma select_class_set:
  "set (select_class d c) = {n. n < length d \<and> c \<in> set (class_list (d ! n))}"
  by (auto simp: select_class_def)

lemma focus_handler_length: "length (focus_handler d) = length d"
  by (simp add: focus_handler_def addClass_def on_each_length)

lemma blur_handler_length: "length (blur_handler d) = length d"
  by (simp add: blur_handler_def removeClass_def on_each_length)

lemma focus_handler_nth:
  "i < length d \<Longrightarrow>
   focus_handler d ! i =
     (if ''cds-navbar-form'' \<in> set (class_list (d ! i))
      then (d ! i)\<lparr>class_list := add_token ''cds-active-search'' (class_list (d ! i))\<rparr>
      else d ! i)"
  by (simp add: focus_handler_def addClass_def on_each_nth select_class_distinct select_class_set)

lemma blur_handler_nth:
  "i < length d \<Longrightarrow>
   blur_handler d ! i =
     (if ''cds-navbar-form'' \<in> set (class_list (d ! i))
      then (d ! i)\<lparr>class_list := remove_token ''cds-active-search'' (class_list (d ! i))\<rparr>
      else d ! i)"
  by (simp add: blur_handler_def removeClass_def on_each_nth select_class_distinct select_class_set)

lemma add_token_set: "set (add_token c cs) = insert c (set cs)"
  by (auto simp: add_token_def)

lemma remove_token_set: "set (remove_token c cs) = set cs - {c}"
  by (auto simp: remove_token_def)

lemma add_token_idem: "add_token c (add_token c cs) = add_token c cs"
  by (simp add: add_token_def)

lemma remove_token_idem: "remove_token c (remove_token c cs) = remove_token c cs"
  by (simp add: remove_token_def)

lemma focus_handler_idem: "focus_handler (focus_handler d) = focus_handler d"
  by (rule nth_equalityI)
     (auto simp: focus_handler_length focus_handler_nth add_token_set add_token_idem)

lemma blur_handler_idem: "blur_handler (blur_handler d) = blur_handler d"
  by (rule nth_equalityI)
     (auto simp: blur_handler_length blur_handler_nth remove_token_set remove_token_idem)

lemma focus_handler_funpow: "0 < k \<Longrightarrow> (focus_handler ^^ k) d = focus_handler d"
proof (induction k)
  case 0
  then show ?case by simp
next
  case (Suc k)
  then show ?case by (cases k) (simp_all add: focus_handler_idem)
qed

lemma blur_handler_funpow: "0 < k \<Longrightarrow> (blur_handler ^^ k) d = blur_handler d"
proof (induction k)
  case 0
  then show ?case by simp
next
  case (Suc k)
  then show ?case by (cases k) (simp_all add: blur_handler_idem)
qed

lemma focus_handler_ids: "map elem_id (focus_handler d) = map elem_id d"
  by (rule nth_equalityI) (auto simp: focus_handler_length focus_handler_nth)

lemma blur_handler_ids: "map elem_id (blur_handler d) = map elem_id d"
  by (rule nth_equalityI) (auto simp: blur_handler_length blur_handler_nth)

lemma getElementById_ids:
  "map elem_id d' = map elem_id d \<Longrightarrow> getElementById d' i = getElementById d i"
proof -
  assume h: "map elem_id d' = map elem_id d"
  then have len: "length d' = length d" by (rule map_eq_imp_length_eq)
  have "\<And>n. n < length d \<Longrightarrow> elem_id (d' ! n) = elem_id (d ! n)"
    using h len by (metis nth_map)
  then show ?thesis
    unfolding getElementById_def len by (intro find_cong) auto
qed

lemma getElementById_Some:
  "getElementById d i = Some n \<Longrightarrow> n < length d \<and> elem_id (d ! n) = Some i"
  by (auto simp: getElementById_def find_Some_iff)

lemma getElementById_None:
  "getElementById d i = None \<longleftrightarrow> (\<forall>n < length d. elem_id (d ! n) \<noteq> Some i)"
  by (auto simp: getElementById_def find_None_iff)


section \<open>The focus and blur handlers on the page\<close>

lemma focus_funpow_ids: "map elem_id ((focus_handler ^^ k) d) = map elem_id d"
  by (induction k) (simp_all add: focus_handler_ids)

lemma blur_funpow_ids: "map elem_id ((blur_handler ^^ k) d) = map elem_id d"
  by (induction k) (simp_all add: blur_handler_ids)

lemma fire_ids: "map elem_id (dom (fire fw ev p)) = map elem_id (dom p)"
  by (cases ev) (simp_all add: navbar_ready_def Let_def focus_funpow_ids blur_funpow_ids)

lemma run_Nil: "run fw [] p = p"
  by (simp add: run_def)

lemma run_Cons: "run fw (ev # es) p = run fw es (fire fw ev p)"
  by (simp add: run_def)

lemma run_append: "run fw (es @ es') p = run fw es' (run fw es p)"
  by (simp add: run_def)

lemma run_ids: "map elem_id (dom (run fw es p)) = map elem_id (dom p)"
  by (induction es arbitrary: p) (simp_all add: run_Nil run_Cons fire_ids)

lemma fire_bound_mono:
  "set (focus_bound p) \<subseteq> set (focus_bound (fire fw ev p)) \<and>
   set (blur_bound p) \<subseteq> set (blur_bound (fire fw ev p))"
  by (cases ev) (auto simp: navbar_ready_def Let_def)

lemma run_bound_mono:
  "set (focus_bound p) \<subseteq> set (focus_bound (run fw es p)) \<and>
   set (blur_bound p) \<subseteq> set (blur_bound (run fw es p))"
proof (induction es arbitrary: p)
  case Nil
  show ?case by (simp add: run_Nil)
next
  case (Cons ev es)
  show ?case
    using fire_bound_mono [of p fw ev] Cons.IH [of "fire fw ev p"]
    by (simp add: run_Cons) blast
qed

lemma navbar_ready_binds:
  "getElementById (dom p) ''cds-navbar-form-input'' = Some n \<Longrightarrow>
   n \<in> set (focus_bound (navbar_ready p)) \<and> n \<in> set (blur_bound (navbar_ready p))"
  by (simp add: navbar_ready_def select_id_def Let_def)

lemma run_binds:
  "getElementById (dom p) ''cds-navbar-form-input'' = Some n \<Longrightarrow> NavbarReady \<in> set es \<Longrightarrow>
   n \<in> set (focus_bound (run fw es p)) \<and> n \<in> set (blur_bound (run fw es p))"
proof (induction es arbitrary: p)
  case Nil
  then show ?case by simp
next
  case (Cons ev es)
  show ?case
  proof (cases "ev = NavbarReady")
    case True
    have "n \<in> set (focus_bound (fire fw ev p)) \<and> n \<in> set (blur_bound (fire fw ev p))"
      using True navbar_ready_binds [OF Cons.prems(1)] by simp
    then show ?thesis
      using run_bound_mono [of "fire fw ev p" fw es] by (auto simp: run_Cons)
  next
    case False
    then have mem: "NavbarReady \<in> set es" using Cons.prems(2) by simp
    have "getElementById (dom (fire fw ev p)) ''cds-navbar-form-input'' = Some n"
      using Cons.prems(1) getElementById_ids [OF fire_ids] by simp
    from Cons.IH [OF this mem] show ?thesis by (simp add: run_Cons)
  qed
qed

lemma fire_Focus_bound:
  "n \<in> set (focus_bound p) \<Longrightarrow> fire fw (Focus n) p = p\<lparr>dom := focus_handler (dom p)\<rparr>"
proof -
  assume "n \<in> set (focus_bound p)"
  then have "0 < count_list (focus_bound p) n"
    using count_list_0_iff [of "focus_bound p" n] by simp
  then show ?thesis by (simp add: focus_handler_funpow)
qed

lemma fire_Blur_bound:
  "n \<in> set (blur_bound p) \<Longrightarrow> fire fw (Blur n) p = p\<lparr>dom := blur_handler (dom p)\<rparr>"
proof -
  assume "n \<in> set (blur_bound p)"
  then have "0 < count_list (blur_bound p) n"
    using count_list_0_iff [of "blur_bound p" n] by simp
  then show ?thesis by (simp add: blur_handler_funpow)
qed

text \<open>
  Claim C2. Once the ready callback has bound the handlers, in whatever state the page
  has been brought to by the events so far, a focus event on the input
  \<^verbatim>\<open>cds-navbar-form-input\<close> leaves the class \<^verbatim>\<open>cds-active-search\<close> in the class set of
  every container, that is, of every element with the class \<^verbatim>\<open>cds-navbar-form\<close>.
\<close>

theorem focus_adds_active_class:
  assumes "getElementById d ''cds-navbar-form-input'' = Some n"
    and "NavbarReady \<in> set es"
    and "p = run fw es (init_page d)"
    and "i < length (dom p)"
    and "''cds-navbar-form'' \<in> set (class_list (dom p ! i))"
  shows "''cds-active-search'' \<in> set (class_list (dom (fire fw (Focus n) p) ! i))"
proof -
  have "n \<in> set (focus_bound p)"
    using run_binds [of "init_page d" n es fw] assms(1-3) by (simp add: init_page_def)
  then have "fire fw (Focus n) p = p\<lparr>dom := focus_handler (dom p)\<rparr>"
    by (rule fire_Focus_bound)
  then show ?thesis
    using assms(4,5) by (simp add: focus_handler_nth add_token_set del: fire.simps)
qed

theorem focus_adds_active_class_witness:
  "getElementById home_page ''cds-navbar-form-input'' = Some 1 \<and>
   NavbarReady \<in> set [BootstrapReady, NavbarReady] \<and>
   0 < length (dom (run always_returns [BootstrapReady, NavbarReady] (init_page home_page))) \<and>
   ''cds-navbar-form'' \<in> set (class_list
       (dom (run always_returns [BootstrapReady, NavbarReady] (init_page home_page)) ! 0)) \<and>
   ''cds-active-search'' \<in> set (class_list
       (dom (fire always_returns (Focus 1)
              (run always_returns [BootstrapReady, NavbarReady] (init_page home_page))) ! 0))"
proof -
  have h1: "getElementById home_page ''cds-navbar-form-input'' = Some 1"
    by code_simp
  have h2: "NavbarReady \<in> set [BootstrapReady, NavbarReady]"
    by simp
  have h4: "0 < length (dom (run always_returns [BootstrapReady, NavbarReady] (init_page home_page)))"
    by code_simp
  have h5: "''cds-navbar-form'' \<in> set (class_list
       (dom (run always_returns [BootstrapReady, NavbarReady] (init_page home_page)) ! 0))"
    by code_simp
  show ?thesis
    using h1 h2 h4 h5 focus_adds_active_class [OF h1 h2 refl h4 h5] by simp
qed

text \<open>
  Claim C3. In the same states, a blur event on the input leaves the class
  \<^verbatim>\<open>cds-active-search\<close> absent from the class set of every container.
\<close>

theorem blur_removes_active_class:
  assumes "getElementById d ''cds-navbar-form-input'' = Some n"
    and "NavbarReady \<in> set es"
    and "p = run fw es (init_page d)"
    and "i < length (dom p)"
    and "''cds-navbar-form'' \<in> set (class_list (dom p ! i))"
  shows "''cds-active-search'' \<notin> set (class_list (dom (fire fw (Blur n) p) ! i))"
proof -
  have "n \<in> set (blur_bound p)"
    using run_binds [of "init_page d" n es fw] assms(1-3) by (simp add: init_page_def)
  then have "fire fw (Blur n) p = p\<lparr>dom := blur_handler (dom p)\<rparr>"
    by (rule fire_Blur_bound)
  then show ?thesis
    using assms(4,5) by (simp add: blur_handler_nth remove_token_set del: fire.simps)
qed

theorem blur_removes_active_class_witness:
  "getElementById full_page ''cds-navbar-form-input'' = Some 1 \<and>
   NavbarReady \<in> set [NavbarReady, Focus 1] \<and>
   5 < length (dom (run always_returns [NavbarReady, Focus 1] (init_page full_page))) \<and>
   ''cds-navbar-form'' \<in> set (class_list
       (dom (run always_returns [NavbarReady, Focus 1] (init_page full_page)) ! 5)) \<and>
   ''cds-active-search'' \<notin> set (class_list
       (dom (fire always_returns (Blur 1)
              (run always_returns [NavbarReady, Focus 1] (init_page full_page))) ! 5))"
proof -
  have h1: "getElementById full_page ''cds-navbar-form-input'' = Some 1"
    by code_simp
  have h2: "NavbarReady \<in> set [NavbarReady, Focus 1]"
    by simp
  have h4: "5 < length (dom (run always_returns [NavbarReady, Focus 1] (init_page full_page)))"
    by code_simp
  have h5: "''cds-navbar-form'' \<in> set (class_list
       (dom (run always_returns [NavbarReady, Focus 1] (init_page full_page)) ! 5))"
    by code_simp
  show ?thesis
    using h1 h2 h4 h5 blur_removes_active_class [OF h1 h2 refl h4 h5] by simp
qed

section \<open>The bootstrap callback\<close>

lemma bootstrap_modules_calls:
  "\<not> threw (bootstrap_modules fw d \<lparr>calls = l, threw = False\<rparr>) \<Longrightarrow>
   calls (bootstrap_modules fw d \<lparr>calls = l, threw = False\<rparr>) =
     l @ [(getElementById d ''invenio-search'',
            [''cds'', ''angular-loading-bar'', ''ngDialog'', ''invenioSearch'']),
          (getElementById d ''cds-featured-video'', [''cds'', ''invenioSearch'']),
          (getElementById d ''cds-recent-videos'', [''cds'', ''invenioSearch''])]"
  by (simp add: bootstrap_modules_def bootstrap_def Let_def split: if_splits)

text \<open>
  Whatever the framework does, the calls made are the first one, two or three of the
  source's calls: a throw cuts the sequence short, and nothing else changes it.
\<close>

lemma bootstrap_modules_calls_prefix:
  "\<exists>k\<in>{1, 2, 3}.
     calls (bootstrap_modules fw d \<lparr>calls = [], threw = False\<rparr>) =
       take k [(getElementById d ''invenio-search'',
                 [''cds'', ''angular-loading-bar'', ''ngDialog'', ''invenioSearch'']),
               (getElementById d ''cds-featured-video'', [''cds'', ''invenioSearch'']),
               (getElementById d ''cds-recent-videos'', [''cds'', ''invenioSearch''])]"
  by (simp add: bootstrap_modules_def bootstrap_def Let_def)

lemma fire_BootstrapReady_log:
  "\<not> threw (bootstrap_modules fw d \<lparr>calls = [], threw = False\<rparr>) \<Longrightarrow>
   bootstrap_log (fire fw BootstrapReady (init_page d)) =
     [(getElementById d ''invenio-search'',
        [''cds'', ''angular-loading-bar'', ''ngDialog'', ''invenioSearch'']),
      (getElementById d ''cds-featured-video'', [''cds'', ''invenioSearch'']),
      (getElementById d ''cds-recent-videos'', [''cds'', ''invenioSearch''])]"
  using bootstrap_modules_calls [of fw d "[]"] by (simp add: init_page_def)

lemma getElementById_inj:
  "getElementById d a = Some n \<Longrightarrow> getElementById d b = Some n \<Longrightarrow> a = b"
  using getElementById_Some [of d a n] getElementById_Some [of d b n] by simp

lemma getElementById_absent:
  "getElementById d i = None \<longleftrightarrow> Some i \<notin> set (map elem_id d)"
proof -
  have "Some i \<in> set (map elem_id d) \<longleftrightarrow> (\<exists>n<length d. elem_id (d ! n) = Some i)"
    unfolding in_set_conv_nth by auto
  then show ?thesis
    by (simp add: getElementById_None)
qed

lemma bootstrap_log_targets:
  assumes "\<not> threw (bootstrap_modules fw d \<lparr>calls = [], threw = False\<rparr>)"
    and "log = bootstrap_log (fire fw BootstrapReady (init_page d))"
  shows "(getElementById d ''invenio-search'',
            [''cds'', ''angular-loading-bar'', ''ngDialog'', ''invenioSearch'']) \<in> set log \<and>
         (getElementById d ''cds-featured-video'', [''cds'', ''invenioSearch'']) \<in> set log \<and>
         (getElementById d ''cds-recent-videos'', [''cds'', ''invenioSearch'']) \<in> set log \<and>
         (\<forall>n ms. (Some n, ms) \<in> set log \<longrightarrow>
            n < length d \<and>
            elem_id (d ! n) \<in> {Some ''invenio-search'', Some ''cds-featured-video'',
                                Some ''cds-recent-videos''})"
proof (intro conjI allI impI)
  note log = fire_BootstrapReady_log [OF assms(1), folded assms(2)]
  show "(getElementById d ''invenio-search'',
            [''cds'', ''angular-loading-bar'', ''ngDialog'', ''invenioSearch'']) \<in> set log"
    unfolding log by simp
  show "(getElementById d ''cds-featured-video'', [''cds'', ''invenioSearch'']) \<in> set log"
    unfolding log by simp
  show "(getElementById d ''cds-recent-videos'', [''cds'', ''invenioSearch'']) \<in> set log"
    unfolding log by simp
  fix n ms
  assume "(Some n, ms) \<in> set log"
  then have "getElementById d ''invenio-search'' = Some n
           \<or> getElementById d ''cds-featured-video'' = Some n
           \<or> getElementById d ''cds-recent-videos'' = Some n"
    unfolding log by auto
  then have both: "n < length d \<and>
      elem_id (d ! n) \<in> {Some ''invenio-search'', Some ''cds-featured-video'',
                          Some ''cds-recent-videos''}"
    using getElementById_Some [of d _ n] by blast
  from both show "n < length d" by (rule conjunct1)
  from both show "elem_id (d ! n) \<in> {Some ''invenio-search'', Some ''cds-featured-video'',
                          Some ''cds-recent-videos''}" by (rule conjunct2)
qed


text \<open>
  Claim C1 says that after the DOM-ready callback the bootstrap entry point has been
  invoked exactly once for each of the three containers. The callback makes its three
  calls one after the other with nothing to catch a throw, so a call that throws ends it:
  on a page that has all three containers, with a framework whose first call throws, one
  call is made, and the containers \<^verbatim>\<open>cds-featured-video\<close> and \<^verbatim>\<open>cds-recent-videos\<close> are
  the target of none.
\<close>

theorem bootstrap_throw_counterexample:
  "getElementById full_page ''invenio-search'' = Some 2 \<and>
   getElementById full_page ''cds-featured-video'' = Some 3 \<and>
   getElementById full_page ''cds-recent-videos'' = Some 4 \<and>
   bootstrap_log (fire always_throws BootstrapReady (init_page full_page)) =
     [(Some 2, [''cds'', ''angular-loading-bar'', ''ngDialog'', ''invenioSearch''])] \<and>
   Some 3 \<notin> set (map fst
       (bootstrap_log (fire always_throws BootstrapReady (init_page full_page)))) \<and>
   Some 4 \<notin> set (map fst
       (bootstrap_log (fire always_throws BootstrapReady (init_page full_page))))"
  by code_simp

text \<open>
  Claim C1, as amended. When none of the bootstrap calls throws, after the DOM-ready
  callback has run on a freshly loaded page the bootstrap entry point has been invoked
  exactly once for each of the three containers \<^verbatim>\<open>invenio-search\<close>,
  \<^verbatim>\<open>cds-featured-video\<close> and \<^verbatim>\<open>cds-recent-videos\<close>, each with its literal module list:
  the calls made are exactly the three calls of the source, in the source's order, and
  for every container found in the document exactly one call has it as its target, with
  that container's module list.
\<close>

theorem bootstrap_once_per_container:
  assumes "\<not> threw (bootstrap_modules fw d \<lparr>calls = [], threw = False\<rparr>)"
    and "log = bootstrap_log (fire fw BootstrapReady (init_page d))"
  shows "log = [(getElementById d ''invenio-search'',
                  [''cds'', ''angular-loading-bar'', ''ngDialog'', ''invenioSearch'']),
                (getElementById d ''cds-featured-video'', [''cds'', ''invenioSearch'']),
                (getElementById d ''cds-recent-videos'', [''cds'', ''invenioSearch''])] \<and>
         (\<forall>n. getElementById d ''invenio-search'' = Some n \<longrightarrow>
              filter (\<lambda>c. fst c = Some n) log =
                [(Some n, [''cds'', ''angular-loading-bar'', ''ngDialog'', ''invenioSearch''])]) \<and>
         (\<forall>n. getElementById d ''cds-featured-video'' = Some n \<longrightarrow>
              filter (\<lambda>c. fst c = Some n) log = [(Some n, [''cds'', ''invenioSearch''])]) \<and>
         (\<forall>n. getElementById d ''cds-recent-videos'' = Some n \<longrightarrow>
              filter (\<lambda>c. fst c = Some n) log = [(Some n, [''cds'', ''invenioSearch''])])"
proof (intro conjI allI impI)
  note log = fire_BootstrapReady_log [OF assms(1), folded assms(2)]
  have ne: "getElementById d a = Some n \<Longrightarrow> a \<noteq> b \<Longrightarrow> getElementById d b \<noteq> Some n"
    for a b n using getElementById_inj [of d a n b] by blast
  show "log = [(getElementById d ''invenio-search'',
                  [''cds'', ''angular-loading-bar'', ''ngDialog'', ''invenioSearch'']),
                (getElementById d ''cds-featured-video'', [''cds'', ''invenioSearch'']),
                (getElementById d ''cds-recent-videos'', [''cds'', ''invenioSearch''])]"
    by (rule log)
  fix n
  {
    assume h: "getElementById d ''invenio-search'' = Some n"
    have "getElementById d ''cds-featured-video'' \<noteq> Some n"
      and "getElementById d ''cds-recent-videos'' \<noteq> Some n"
      using ne [OF h] by simp_all
    then show "filter (\<lambda>c. fst c = Some n) log =
        [(Some n, [''cds'', ''angular-loading-bar'', ''ngDialog'', ''invenioSearch''])]"
      unfolding log using h by simp
  }
  {
    assume h: "getElementById d ''cds-featured-video'' = Some n"
    have "getElementById d ''invenio-search'' \<noteq> Some n"
      and "getElementById d ''cds-recent-videos'' \<noteq> Some n"
      using ne [OF h] by simp_all
    then show "filter (\<lambda>c. fst c = Some n) log = [(Some n, [''cds'', ''invenioSearch''])]"
      unfolding log using h by simp
  }
  {
    assume h: "getElementById d ''cds-recent-videos'' = Some n"
    have "getElementById d ''invenio-search'' \<noteq> Some n"
      and "getElementById d ''cds-featured-video'' \<noteq> Some n"
      using ne [OF h] by simp_all
    then show "filter (\<lambda>c. fst c = Some n) log = [(Some n, [''cds'', ''invenioSearch''])]"
      unfolding log using h by simp
  }
qed

theorem bootstrap_once_per_container_witness:
  "\<not> threw (bootstrap_modules always_returns full_page \<lparr>calls = [], threw = False\<rparr>) \<and>
   getElementById full_page ''invenio-search'' = Some 2 \<and>
   bootstrap_log (fire always_returns BootstrapReady (init_page full_page)) =
     [(Some 2, [''cds'', ''angular-loading-bar'', ''ngDialog'', ''invenioSearch'']),
      (Some 3, [''cds'', ''invenioSearch'']),
      (Some 4, [''cds'', ''invenioSearch''])] \<and>
   filter (\<lambda>c. fst c = Some 2)
       (bootstrap_log (fire always_returns BootstrapReady (init_page full_page))) =
     [(Some 2, [''cds'', ''angular-loading-bar'', ''ngDialog'', ''invenioSearch''])]"
proof -
  have ok: "\<not> threw (bootstrap_modules always_returns full_page \<lparr>calls = [], threw = False\<rparr>)"
    by code_simp
  have ids: "getElementById full_page ''invenio-search'' = Some 2"
    "getElementById full_page ''cds-featured-video'' = Some 3"
    "getElementById full_page ''cds-recent-videos'' = Some 4"
    by code_simp+
  show ?thesis
    using ok ids bootstrap_once_per_container [OF ok refl] by simp
qed

text \<open>
  Claim C4 says that a container that is absent from the page is not passed to the
  bootstrap entry point. The callback has no such check: on the home page, which has no
  \<^verbatim>\<open>invenio-search\<close> element, the first call is made all the same, with \<^verbatim>\<open>null\<close> as its
  target.
\<close>

theorem bootstrap_absent_container_counterexample:
  "Some ''invenio-search'' \<notin> set (map elem_id home_page) \<and>
   getElementById home_page ''invenio-search'' = None \<and>
   bootstrap_log (fire always_returns BootstrapReady (init_page home_page)) =
     [(None, [''cds'', ''angular-loading-bar'', ''ngDialog'', ''invenioSearch'']),
      (Some 2, [''cds'', ''invenioSearch'']),
      (Some 3, [''cds'', ''invenioSearch''])]"
  by code_simp

text \<open>
  Claim C4, as amended. For each of the three containers the callback passes the result
  of the lookup by id to the bootstrap entry point, with the container's module list and
  without testing it: the element when it is found, \<^verbatim>\<open>null\<close> when no element of the
  page has the id. An element is a target of a call only if it carries one of the three
  ids. As for C1, the
  statement is for runs in which no call throws.
\<close>

theorem bootstrap_passes_lookup_result:
  assumes "\<not> threw (bootstrap_modules fw d \<lparr>calls = [], threw = False\<rparr>)"
    and "log = bootstrap_log (fire fw BootstrapReady (init_page d))"
  shows "(getElementById d ''invenio-search'',
            [''cds'', ''angular-loading-bar'', ''ngDialog'', ''invenioSearch'']) \<in> set log \<and>
         (getElementById d ''cds-featured-video'', [''cds'', ''invenioSearch'']) \<in> set log \<and>
         (getElementById d ''cds-recent-videos'', [''cds'', ''invenioSearch'']) \<in> set log \<and>
         (Some ''invenio-search'' \<notin> set (map elem_id d) \<longrightarrow>
            (None, [''cds'', ''angular-loading-bar'', ''ngDialog'', ''invenioSearch''])
              \<in> set log) \<and>
         (Some ''cds-featured-video'' \<notin> set (map elem_id d) \<longrightarrow>
            (None, [''cds'', ''invenioSearch'']) \<in> set log) \<and>
         (Some ''cds-recent-videos'' \<notin> set (map elem_id d) \<longrightarrow>
            (None, [''cds'', ''invenioSearch'']) \<in> set log) \<and>
         (\<forall>n ms. (Some n, ms) \<in> set log \<longrightarrow>
            n < length d \<and>
            elem_id (d ! n) \<in> {Some ''invenio-search'', Some ''cds-featured-video'',
                                Some ''cds-recent-videos''})"
proof -
  have a: "(getElementById d ''invenio-search'',
            [''cds'', ''angular-loading-bar'', ''ngDialog'', ''invenioSearch'']) \<in> set log"
    and b: "(getElementById d ''cds-featured-video'', [''cds'', ''invenioSearch'']) \<in> set log"
    and c: "(getElementById d ''cds-recent-videos'', [''cds'', ''invenioSearch'']) \<in> set log"
    and only: "\<forall>n ms. (Some n, ms) \<in> set log \<longrightarrow>
            n < length d \<and>
            elem_id (d ! n) \<in> {Some ''invenio-search'', Some ''cds-featured-video'',
                                Some ''cds-recent-videos''}"
    using bootstrap_log_targets [OF assms] by blast+
  have a': "(None, [''cds'', ''angular-loading-bar'', ''ngDialog'', ''invenioSearch''])
              \<in> set log" if "Some ''invenio-search'' \<notin> set (map elem_id d)"
    using a that getElementById_absent [of d "''invenio-search''"] by simp
  have b': "(None, [''cds'', ''invenioSearch'']) \<in> set log"
    if "Some ''cds-featured-video'' \<notin> set (map elem_id d)"
    using b that getElementById_absent [of d "''cds-featured-video''"] by simp
  have c': "(None, [''cds'', ''invenioSearch'']) \<in> set log"
    if "Some ''cds-recent-videos'' \<notin> set (map elem_id d)"
    using c that getElementById_absent [of d "''cds-recent-videos''"] by simp
  show ?thesis
    using a b c a' b' c' only by blast
qed

theorem bootstrap_passes_lookup_result_witness:
  "\<not> threw (bootstrap_modules always_returns home_page \<lparr>calls = [], threw = False\<rparr>) \<and>
   Some ''invenio-search'' \<notin> set (map elem_id home_page) \<and>
   (None, [''cds'', ''angular-loading-bar'', ''ngDialog'', ''invenioSearch''])
     \<in> set (bootstrap_log (fire always_returns BootstrapReady (init_page home_page))) \<and>
   getElementById home_page ''cds-featured-video'' = Some 2 \<and>
   (Some 2, [''cds'', ''invenioSearch''])
     \<in> set (bootstrap_log (fire always_returns BootstrapReady (init_page home_page))) \<and>
   elem_id (home_page ! 2) = Some ''cds-featured-video''"
proof -
  have ok: "\<not> threw (bootstrap_modules always_returns home_page \<lparr>calls = [], threw = False\<rparr>)"
    by code_simp
  have absent: "Some ''invenio-search'' \<notin> set (map elem_id home_page)"
    by code_simp
  have found: "getElementById home_page ''cds-featured-video'' = Some 2"
    by code_simp
  have el: "elem_id (home_page ! 2) = Some ''cds-featured-video''"
    by code_simp
  show ?thesis
    using ok absent found el bootstrap_passes_lookup_result [OF ok refl] by simp
qed

text \<open>
  Claim C5. The three bootstrap calls use exactly two distinct module lists: the calls for
  \<^verbatim>\<open>cds-featured-video\<close> and \<^verbatim>\<open>cds-recent-videos\<close> have the same list, and the list of
  the call for \<^verbatim>\<open>invenio-search\<close> is a proper superset of it.
\<close>

theorem bootstrap_two_module_lists:
  assumes "\<not> threw (bootstrap_modules fw d \<lparr>calls = [], threw = False\<rparr>)"
    and "log = bootstrap_log (fire fw BootstrapReady (init_page d))"
  shows "card (set (map snd log)) = 2 \<and>
         snd (log ! 1) = snd (log ! 2) \<and>
         set (snd (log ! 1)) \<subset> set (snd (log ! 0))"
proof (intro conjI)
  note log = fire_BootstrapReady_log [OF assms(1), folded assms(2)]
  show "card (set (map snd log)) = 2"
    unfolding log by simp
  show "snd (log ! 1) = snd (log ! 2)"
    unfolding log by simp
  have "''ngDialog'' \<in> set (snd (log ! 0))" "''ngDialog'' \<notin> set (snd (log ! 1))"
    and "set (snd (log ! 1)) \<subseteq> set (snd (log ! 0))"
    unfolding log by simp_all
  then show "set (snd (log ! 1)) \<subset> set (snd (log ! 0))"
    by blast
qed

theorem bootstrap_two_module_lists_witness:
  "\<not> threw (bootstrap_modules always_returns full_page \<lparr>calls = [], threw = False\<rparr>) \<and>
   card (set (map snd (bootstrap_log (fire always_returns BootstrapReady (init_page full_page))))) = 2 \<and>
   snd (bootstrap_log (fire always_returns BootstrapReady (init_page full_page)) ! 1)
     = snd (bootstrap_log (fire always_returns BootstrapReady (init_page full_page)) ! 2) \<and>
   set (snd (bootstrap_log (fire always_returns BootstrapReady (init_page full_page)) ! 1))
     \<subset> set (snd (bootstrap_log (fire always_returns BootstrapReady (init_page full_page)) ! 0))"
proof -
  have ok: "\<not> threw (bootstrap_modules always_returns full_page \<lparr>calls = [], threw = False\<rparr>)"
    by code_simp
  show ?thesis
    using ok bootstrap_two_module_lists [OF ok refl] by blast
qed

section \<open>Repeated focus and blur\<close>

lemma remove_add_token: "remove_token c (add_token c cs) = remove_token c cs"
  by (simp add: remove_token_def add_token_def)

lemma blur_after_focus: "blur_handler (focus_handler d) = blur_handler d"
  by (rule nth_equalityI)
     (auto simp: blur_handler_length focus_handler_length blur_handler_nth focus_handler_nth
        add_token_set remove_add_token)

lemma focus_blur_focus_eq: "focus_blur_focus d = focus_handler (blur_handler d)"
  by (simp add: focus_blur_focus_def blur_after_focus)

lemma focus_blur_focus_length: "length (focus_blur_focus d) = length d"
  by (simp add: focus_blur_focus_eq focus_handler_length blur_handler_length)

lemma focus_blur_focus_nth:
  "i < length d \<Longrightarrow>
   focus_blur_focus d ! i =
     (if ''cds-navbar-form'' \<in> set (class_list (d ! i))
      then (d ! i)\<lparr>class_list := remove_token ''cds-active-search'' (class_list (d ! i))
                                   @ [''cds-active-search'']\<rparr>
      else d ! i)"
  by (simp add: focus_blur_focus_eq focus_handler_nth blur_handler_nth blur_handler_length
      remove_token_set add_token_def)

lemma focus_blur_focus_idem: "focus_blur_focus (focus_blur_focus d) = focus_blur_focus d"
  by (simp add: focus_blur_focus_eq blur_after_focus blur_handler_idem)

lemma focus_blur_focus_funpow: "0 < k \<Longrightarrow> (focus_blur_focus ^^ k) d = focus_blur_focus d"
proof (induction k)
  case 0
  then show ?case by simp
next
  case (Suc k)
  then show ?case by (cases k) (simp_all add: focus_blur_focus_idem)
qed

lemma run_cycle:
  assumes "n \<in> set (focus_bound p)" and "n \<in> set (blur_bound p)"
  shows "run fw [Focus n, Blur n, Focus n] p = p\<lparr>dom := focus_blur_focus (dom p)\<rparr>"
proof -
  have 1: "fire fw (Focus n) p = p\<lparr>dom := focus_handler (dom p)\<rparr>"
    using assms(1) by (rule fire_Focus_bound)
  have 2: "fire fw (Blur n) (p\<lparr>dom := focus_handler (dom p)\<rparr>)
             = p\<lparr>dom := blur_handler (focus_handler (dom p))\<rparr>"
    using assms(2) fire_Blur_bound [of n "p\<lparr>dom := focus_handler (dom p)\<rparr>" fw] by simp
  have 3: "fire fw (Focus n) (p\<lparr>dom := blur_handler (focus_handler (dom p))\<rparr>)
             = p\<lparr>dom := focus_blur_focus (dom p)\<rparr>"
    using assms(1) fire_Focus_bound [of n "p\<lparr>dom := blur_handler (focus_handler (dom p))\<rparr>" fw]
    by (simp add: focus_blur_focus_def)
  show ?thesis
    by (simp only: run_Cons run_Nil 1 2 3)
qed

lemma run_cycles:
  "n \<in> set (focus_bound p) \<Longrightarrow> n \<in> set (blur_bound p) \<Longrightarrow>
   run fw (concat (replicate k [Focus n, Blur n, Focus n])) p
     = p\<lparr>dom := (focus_blur_focus ^^ k) (dom p)\<rparr>"
proof (induction k arbitrary: p)
  case 0
  show ?case by (simp add: run_Nil)
next
  case (Suc k)
  have "run fw (concat (replicate (Suc k) [Focus n, Blur n, Focus n])) p
          = run fw (concat (replicate k [Focus n, Blur n, Focus n]))
              (run fw [Focus n, Blur n, Focus n] p)"
    by (simp only: replicate_Suc concat.simps run_append)
  also have "\<dots> = run fw (concat (replicate k [Focus n, Blur n, Focus n]))
                     (p\<lparr>dom := focus_blur_focus (dom p)\<rparr>)"
    by (simp only: run_cycle [OF Suc.prems])
  also have "\<dots> = p\<lparr>dom := (focus_blur_focus ^^ k) (focus_blur_focus (dom p))\<rparr>"
    using Suc.IH [of "p\<lparr>dom := focus_blur_focus (dom p)\<rparr>"] Suc.prems by simp
  finally show ?case by (simp add: funpow_swap1)
qed

lemma focus_blur_focus_inactive:
  assumes "\<forall>e\<in>set d. ''cds-active-search'' \<notin> set (class_list e)"
  shows "focus_blur_focus d = focus_handler d"
proof (rule nth_equalityI)
  show "length (focus_blur_focus d) = length (focus_handler d)"
    by (simp add: focus_blur_focus_length focus_handler_length)
next
  fix i
  assume "i < length (focus_blur_focus d)"
  then have i: "i < length d" by (simp add: focus_blur_focus_length)
  then have "''cds-active-search'' \<notin> set (class_list (d ! i))"
    using assms nth_mem by blast
  then have "remove_token ''cds-active-search'' (class_list (d ! i)) = class_list (d ! i)"
    and "add_token ''cds-active-search'' (class_list (d ! i))
           = class_list (d ! i) @ [''cds-active-search'']"
    by (auto simp: remove_token_def add_token_def filter_id_conv)
  then show "focus_blur_focus d ! i = focus_handler d ! i"
    using i by (simp add: focus_blur_focus_nth focus_handler_nth)
qed

text \<open>
  Claim C6. With the handlers bound to the input \<open>n\<close>, any number \<open>k \<ge> 1\<close> of
  focus, blur, focus cycles leaves every element with the class set it has after a single
  focus event: the same ids and the same classes as sets; the active class is in the
  class set of every container after the cycles and out of it after one more blur. When
  the active class is absent at the start, the whole page is the one a single focus
  gives.
\<close>

theorem cycles_equal_single_focus:
  assumes "0 < k"
    and "n \<in> set (focus_bound p)"
    and "n \<in> set (blur_bound p)"
    and "q = run fw (concat (replicate k [Focus n, Blur n, Focus n])) p"
    and "r = fire fw (Focus n) p"
  shows "length (dom q) = length (dom r) \<and>
         (\<forall>i<length (dom p).
            elem_id (dom q ! i) = elem_id (dom r ! i) \<and>
            set (class_list (dom q ! i)) = set (class_list (dom r ! i)) \<and>
            (''cds-navbar-form'' \<in> set (class_list (dom p ! i)) \<longrightarrow>
               ''cds-active-search'' \<in> set (class_list (dom q ! i)) \<and>
               ''cds-active-search'' \<notin> set (class_list (dom (fire fw (Blur n) q) ! i)))) \<and>
         ((\<forall>e\<in>set (dom p). ''cds-active-search'' \<notin> set (class_list e)) \<longrightarrow> q = r)"
proof -
  have q: "q = p\<lparr>dom := focus_blur_focus (dom p)\<rparr>"
    using assms(1) by (simp only: assms(4) run_cycles [OF assms(2,3)] focus_blur_focus_funpow)
  have r: "r = p\<lparr>dom := focus_handler (dom p)\<rparr>"
    by (simp only: assms(5) fire_Focus_bound [OF assms(2)])
  have "n \<in> set (blur_bound q)" using assms(3) by (simp add: q)
  then have b: "fire fw (Blur n) q = p\<lparr>dom := blur_handler (focus_blur_focus (dom p))\<rparr>"
    by (simp only: fire_Blur_bound) (simp add: q)
  have len: "length (dom q) = length (dom r)"
    by (simp add: q r focus_blur_focus_length focus_handler_length)
  have elems: "elem_id (dom q ! i) = elem_id (dom r ! i) \<and>
            set (class_list (dom q ! i)) = set (class_list (dom r ! i)) \<and>
            (''cds-navbar-form'' \<in> set (class_list (dom p ! i)) \<longrightarrow>
               ''cds-active-search'' \<in> set (class_list (dom q ! i)) \<and>
               ''cds-active-search'' \<notin> set (class_list (dom (fire fw (Blur n) q) ! i)))"
    if "i < length (dom p)" for i
    unfolding b using that
    by (auto simp: q r focus_blur_focus_nth focus_handler_nth blur_handler_nth
          focus_blur_focus_length add_token_set remove_token_set)
  have same: "q = r" if "\<forall>e\<in>set (dom p). ''cds-active-search'' \<notin> set (class_list e)"
    using focus_blur_focus_inactive [OF that] by (simp add: q r)
  show ?thesis
    using len elems same by blast
qed

theorem cycles_equal_single_focus_witness:
  "(0::nat) < 2 \<and>
   1 \<in> set (focus_bound (run always_returns [NavbarReady] (init_page home_page))) \<and>
   1 \<in> set (blur_bound (run always_returns [NavbarReady] (init_page home_page))) \<and>
   0 < length (dom (run always_returns [NavbarReady] (init_page home_page))) \<and>
   ''cds-navbar-form'' \<in> set (class_list
       (dom (run always_returns [NavbarReady] (init_page home_page)) ! 0)) \<and>
   list_all (\<lambda>e. ''cds-active-search'' \<notin> set (class_list e))
       (dom (run always_returns [NavbarReady] (init_page home_page))) \<and>
   ''cds-active-search'' \<in> set (class_list
       (dom (run always_returns (concat (replicate 2 [Focus 1, Blur 1, Focus 1]))
              (run always_returns [NavbarReady] (init_page home_page))) ! 0)) \<and>
   run always_returns (concat (replicate 2 [Focus 1, Blur 1, Focus 1]))
       (run always_returns [NavbarReady] (init_page home_page))
     = fire always_returns (Focus 1) (run always_returns [NavbarReady] (init_page home_page))"
proof -
  have h1: "(0::nat) < 2" by simp
  have h2: "1 \<in> set (focus_bound (run always_returns [NavbarReady] (init_page home_page)))"
    by code_simp
  have h3: "1 \<in> set (blur_bound (run always_returns [NavbarReady] (init_page home_page)))"
    by code_simp
  have l4: "list_all (\<lambda>e. ''cds-active-search'' \<notin> set (class_list e))
       (dom (run always_returns [NavbarReady] (init_page home_page)))"
    by code_simp
  then have h4: "\<forall>e\<in>set (dom (run always_returns [NavbarReady] (init_page home_page))).
      ''cds-active-search'' \<notin> set (class_list e)"
    by (simp only: list_all_iff)
  have h5: "0 < length (dom (run always_returns [NavbarReady] (init_page home_page)))"
    by code_simp
  have h6: "''cds-navbar-form'' \<in> set (class_list
       (dom (run always_returns [NavbarReady] (init_page home_page)) ! 0))"
    by code_simp
  show ?thesis
    using h1 h2 h3 l4 h4 h5 h6 cycles_equal_single_focus [OF h1 h2 h3 refl refl] by blast
qed

section \<open>The handlers on the document\<close>

lemma add_token_distinct: "distinct cs \<Longrightarrow> distinct (add_token c cs)"
  by (simp add: add_token_def)

text \<open>
  Claim C7. The focus handler leaves an element that already has the active class as it
  is, so no second entry for the class is made, and a class attribute without repeated
  tokens has none after the handler; when every container already has the active class
  the handler leaves the whole document unchanged, and running the handler twice is the
  same as running it once.
\<close>

theorem focus_when_active_is_noop:
  "(\<forall>i<length d.
      (''cds-active-search'' \<in> set (class_list (d ! i)) \<longrightarrow> focus_handler d ! i = d ! i) \<and>
      (distinct (class_list (d ! i)) \<longrightarrow> distinct (class_list (focus_handler d ! i)))) \<and>
   ((\<forall>e\<in>set d. ''cds-navbar-form'' \<in> set (class_list e) \<longrightarrow>
                ''cds-active-search'' \<in> set (class_list e)) \<longrightarrow> focus_handler d = d) \<and>
   focus_handler (focus_handler d) = focus_handler d"
proof (intro conjI allI impI)
  fix i
  assume i: "i < length d"
  {
    assume "''cds-active-search'' \<in> set (class_list (d ! i))"
    then show "focus_handler d ! i = d ! i"
      using i by (simp add: focus_handler_nth add_token_def)
  }
  {
    assume "distinct (class_list (d ! i))"
    then show "distinct (class_list (focus_handler d ! i))"
      using i by (simp add: focus_handler_nth add_token_distinct)
  }
next
  assume all: "\<forall>e\<in>set d. ''cds-navbar-form'' \<in> set (class_list e) \<longrightarrow>
                ''cds-active-search'' \<in> set (class_list e)"
  show "focus_handler d = d"
  proof (rule nth_equalityI)
    show "length (focus_handler d) = length d" by (rule focus_handler_length)
  next
    fix i
    assume "i < length (focus_handler d)"
    then have i: "i < length d" by (simp add: focus_handler_length)
    then have "''cds-navbar-form'' \<in> set (class_list (d ! i)) \<longrightarrow>
               ''cds-active-search'' \<in> set (class_list (d ! i))"
      using all nth_mem by blast
    then show "focus_handler d ! i = d ! i"
      using i by (auto simp: focus_handler_nth add_token_def)
  qed
next
  show "focus_handler (focus_handler d) = focus_handler d"
    by (rule focus_handler_idem)
qed

theorem focus_when_active_is_noop_witness:
  "5 < length full_page \<and>
   ''cds-active-search'' \<in> set (class_list (full_page ! 5)) \<and>
   distinct (class_list (full_page ! 5)) \<and>
   focus_handler full_page ! 5 = full_page ! 5 \<and>
   distinct (class_list (focus_handler full_page ! 5)) \<and>
   list_all (\<lambda>e. ''cds-navbar-form'' \<notin> set (class_list e) \<or>
                  ''cds-active-search'' \<in> set (class_list e)) focused_page \<and>
   focus_handler focused_page = focused_page"
proof -
  have h1: "5 < length full_page" by code_simp
  have h2: "''cds-active-search'' \<in> set (class_list (full_page ! 5))" by code_simp
  have h3: "distinct (class_list (full_page ! 5))" by code_simp
  have l4: "list_all (\<lambda>e. ''cds-navbar-form'' \<notin> set (class_list e) \<or>
                  ''cds-active-search'' \<in> set (class_list e)) focused_page"
    by code_simp
  then have h4: "\<forall>e\<in>set focused_page. ''cds-navbar-form'' \<in> set (class_list e) \<longrightarrow>
                          ''cds-active-search'' \<in> set (class_list e)"
    unfolding list_all_iff by blast
  show ?thesis
    using h1 h2 h3 l4 h4 focus_when_active_is_noop [of full_page]
      focus_when_active_is_noop [of focused_page]
    by blast
qed

section \<open>A page whose input is never focused\<close>

lemma blur_keeps_inactive:
  assumes "\<forall>e\<in>set d. ''cds-active-search'' \<notin> set (class_list e)"
  shows "\<forall>e\<in>set (blur_handler d). ''cds-active-search'' \<notin> set (class_list e)"
proof
  fix e
  assume "e \<in> set (blur_handler d)"
  then obtain i where "i < length (blur_handler d)" and e: "e = blur_handler d ! i"
    by (metis in_set_conv_nth)
  then have i: "i < length d" by (simp add: blur_handler_length)
  have "''cds-active-search'' \<notin> set (class_list (d ! i))"
    using assms i nth_mem by blast
  then show "''cds-active-search'' \<notin> set (class_list e)"
    using i by (simp add: e blur_handler_nth remove_token_set)
qed

lemma blur_funpow_keeps_inactive:
  "\<forall>e\<in>set d. ''cds-active-search'' \<notin> set (class_list e) \<Longrightarrow>
   \<forall>e\<in>set ((blur_handler ^^ k) d). ''cds-active-search'' \<notin> set (class_list e)"
proof (induction k)
  case 0
  then show ?case by simp
next
  case (Suc k)
  from blur_keeps_inactive [OF Suc.IH [OF Suc.prems]] show ?case by simp
qed

lemma select_id_ids:
  "map elem_id d' = map elem_id d \<Longrightarrow> select_id d' i = select_id d i"
  using getElementById_ids [of d' d i] by (simp add: select_id_def)

lemma fire_keeps_inactive:
  assumes "\<forall>e\<in>set (dom p). ''cds-active-search'' \<notin> set (class_list e)"
    and "\<forall>n. ev = Focus n \<longrightarrow> n \<notin> set (focus_bound p)"
  shows "\<forall>e\<in>set (dom (fire fw ev p)). ''cds-active-search'' \<notin> set (class_list e)"
proof (cases ev)
  case (Focus n)
  then have "count_list (focus_bound p) n = 0"
    using assms(2) by (simp add: count_list_0_iff)
  then show ?thesis using assms(1) Focus by simp
next
  case (Blur n)
  then show ?thesis using blur_funpow_keeps_inactive [OF assms(1)] by simp
qed (use assms(1) in \<open>simp_all add: navbar_ready_def Let_def\<close>)

lemma fire_focus_bound:
  "set (focus_bound (fire fw ev p))
     \<subseteq> set (focus_bound p) \<union> set (select_id (dom p) ''cds-navbar-form-input'')"
  by (cases ev) (auto simp: navbar_ready_def Let_def)

lemma subset_Un_absorb: "A \<subseteq> B \<union> C \<Longrightarrow> B \<subseteq> C \<Longrightarrow> A \<subseteq> C"
  by blast

lemma run_keeps_inactive:
  assumes "map elem_id (dom p) = map elem_id d"
    and "set (focus_bound p) \<subseteq> set (select_id d ''cds-navbar-form-input'')"
    and "\<forall>e\<in>set (dom p). ''cds-active-search'' \<notin> set (class_list e)"
    and "\<forall>n. Focus n \<in> set es \<longrightarrow> n \<notin> set (select_id d ''cds-navbar-form-input'')"
  shows "\<forall>e\<in>set (dom (run fw es p)). ''cds-active-search'' \<notin> set (class_list e)"
  using assms
proof (induction es arbitrary: p)
  case Nil
  then show ?case by (simp add: run_Nil)
next
  case (Cons ev es)
  let ?p = "fire fw ev p"
  have ids: "map elem_id (dom ?p) = map elem_id d"
    using Cons.prems(1) by (simp only: fire_ids)
  have sel: "select_id (dom p) ''cds-navbar-form-input'' = select_id d ''cds-navbar-form-input''"
    using Cons.prems(1) by (rule select_id_ids)
  have "set (focus_bound ?p)
          \<subseteq> set (focus_bound p) \<union> set (select_id d ''cds-navbar-form-input'')"
    using fire_focus_bound [of fw ev p] by (simp only: sel)
  then have bound: "set (focus_bound ?p) \<subseteq> set (select_id d ''cds-navbar-form-input'')"
    using Cons.prems(2) by (rule subset_Un_absorb)
  have nb: "\<forall>n. ev = Focus n \<longrightarrow> n \<notin> set (focus_bound p)"
  proof (intro allI impI)
    fix n
    assume "ev = Focus n"
    then have "Focus n \<in> set (ev # es)" by simp
    then have "n \<notin> set (select_id d ''cds-navbar-form-input'')"
      using Cons.prems(4) by blast
    then show "n \<notin> set (focus_bound p)"
      using Cons.prems(2) by blast
  qed
  have inactive: "\<forall>e\<in>set (dom ?p). ''cds-active-search'' \<notin> set (class_list e)"
    using Cons.prems(3) nb by (rule fire_keeps_inactive)
  have rest: "\<forall>n. Focus n \<in> set es \<longrightarrow> n \<notin> set (select_id d ''cds-navbar-form-input'')"
    using Cons.prems(4) by simp
  show ?case
    using Cons.IH [OF ids bound inactive rest] by (simp only: run_Cons)
qed

text \<open>
  Claim C8. On a page loaded with the active class absent everywhere, after any sequence
  of events in which the input \<^verbatim>\<open>cds-navbar-form-input\<close> receives no focus event, and
  after every prefix of it, no element has the class \<^verbatim>\<open>cds-active-search\<close>.
\<close>

theorem never_focused_never_active:
  assumes "\<forall>e\<in>set d. ''cds-active-search'' \<notin> set (class_list e)"
    and "\<forall>n. Focus n \<in> set es \<longrightarrow> getElementById d ''cds-navbar-form-input'' \<noteq> Some n"
    and "k \<le> length es"
  shows "\<forall>e\<in>set (dom (run fw (take k es) (init_page d))).
           ''cds-active-search'' \<notin> set (class_list e)"
proof (rule run_keeps_inactive [where d = d])
  show "map elem_id (dom (init_page d)) = map elem_id d" by (simp add: init_page_def)
  show "set (focus_bound (init_page d)) \<subseteq> set (select_id d ''cds-navbar-form-input'')"
    by (simp add: init_page_def)
  show "\<forall>e\<in>set (dom (init_page d)). ''cds-active-search'' \<notin> set (class_list e)"
    using assms(1) by (simp add: init_page_def)
  show "\<forall>n. Focus n \<in> set (take k es) \<longrightarrow> n \<notin> set (select_id d ''cds-navbar-form-input'')"
  proof (intro allI impI)
    fix n
    assume "Focus n \<in> set (take k es)"
    then have "Focus n \<in> set es" by (rule in_set_takeD)
    then have "getElementById d ''cds-navbar-form-input'' \<noteq> Some n"
      using assms(2) by blast
    then show "n \<notin> set (select_id d ''cds-navbar-form-input'')"
      by (cases "getElementById d ''cds-navbar-form-input''") (simp_all add: select_id_def)
  qed
qed

theorem never_focused_never_active_witness:
  "list_all (\<lambda>e. ''cds-active-search'' \<notin> set (class_list e)) home_page \<and>
   getElementById home_page ''cds-navbar-form-input'' = Some 1 \<and>
   Focus 1 \<notin> set [BootstrapReady, NavbarReady, Blur 1, Focus 0, Other] \<and>
   (4::nat) \<le> length [BootstrapReady, NavbarReady, Blur 1, Focus 0, Other] \<and>
   list_all (\<lambda>e. ''cds-active-search'' \<notin> set (class_list e))
     (dom (run always_returns (take 4 [BootstrapReady, NavbarReady, Blur 1, Focus 0, Other])
             (init_page home_page)))"
proof -
  have l1: "list_all (\<lambda>e. ''cds-active-search'' \<notin> set (class_list e)) home_page"
    by code_simp
  then have h1: "\<forall>e\<in>set home_page. ''cds-active-search'' \<notin> set (class_list e)"
    by (simp only: list_all_iff)
  have id: "getElementById home_page ''cds-navbar-form-input'' = Some 1"
    by code_simp
  have nf: "Focus 1 \<notin> set [BootstrapReady, NavbarReady, Blur 1, Focus 0, Other]"
    by simp
  have h2: "\<forall>n. Focus n \<in> set [BootstrapReady, NavbarReady, Blur 1, Focus 0, Other] \<longrightarrow>
        getElementById home_page ''cds-navbar-form-input'' \<noteq> Some n"
    unfolding id by simp
  have h3: "(4::nat) \<le> length [BootstrapReady, NavbarReady, Blur 1, Focus 0, Other]"
    by simp
  have "list_all (\<lambda>e. ''cds-active-search'' \<notin> set (class_list e))
     (dom (run always_returns (take 4 [BootstrapReady, NavbarReady, Blur 1, Focus 0, Other])
             (init_page home_page)))"
    using never_focused_never_active [OF h1 h2 h3, of always_returns]
    by (simp only: list_all_iff)
  then show ?thesis
    using l1 id nf h3 by blast
qed

section \<open>What the handlers leave alone, and what they reach\<close>

lemma filter_add_token:
  "filter (\<lambda>x. x \<noteq> c) (add_token c cs) = filter (\<lambda>x. x \<noteq> c) cs"
  by (simp add: add_token_def)

lemma filter_remove_token:
  "filter (\<lambda>x. x \<noteq> c) (remove_token c cs) = filter (\<lambda>x. x \<noteq> c) cs"
  by (simp add: remove_token_def)

text \<open>
  Claim C9. A run of the focus or of the blur handler keeps the number of elements and
  every id; it keeps, in every class attribute, all tokens other than
  \<^verbatim>\<open>cds-active-search\<close> and their order; it leaves every element without the class
  \<^verbatim>\<open>cds-navbar-form\<close> as it is; and a focus or blur event changes nothing of the page
  but the document.
\<close>

theorem handlers_change_only_active_class:
  "length (focus_handler d) = length d \<and> length (blur_handler d) = length d \<and>
   (\<forall>i<length d.
      elem_id (focus_handler d ! i) = elem_id (d ! i) \<and>
      elem_id (blur_handler d ! i) = elem_id (d ! i) \<and>
      filter (\<lambda>c. c \<noteq> ''cds-active-search'') (class_list (focus_handler d ! i))
        = filter (\<lambda>c. c \<noteq> ''cds-active-search'') (class_list (d ! i)) \<and>
      filter (\<lambda>c. c \<noteq> ''cds-active-search'') (class_list (blur_handler d ! i))
        = filter (\<lambda>c. c \<noteq> ''cds-active-search'') (class_list (d ! i)) \<and>
      (''cds-navbar-form'' \<notin> set (class_list (d ! i)) \<longrightarrow>
         focus_handler d ! i = d ! i \<and> blur_handler d ! i = d ! i)) \<and>
   bootstrap_log (fire fw (Focus n) p) = bootstrap_log p \<and>
   focus_bound (fire fw (Focus n) p) = focus_bound p \<and>
   blur_bound (fire fw (Focus n) p) = blur_bound p \<and>
   bootstrap_log (fire fw (Blur n) p) = bootstrap_log p \<and>
   focus_bound (fire fw (Blur n) p) = focus_bound p \<and>
   blur_bound (fire fw (Blur n) p) = blur_bound p"
proof -
  have elems: "elem_id (focus_handler d ! i) = elem_id (d ! i) \<and>
      elem_id (blur_handler d ! i) = elem_id (d ! i) \<and>
      filter (\<lambda>c. c \<noteq> ''cds-active-search'') (class_list (focus_handler d ! i))
        = filter (\<lambda>c. c \<noteq> ''cds-active-search'') (class_list (d ! i)) \<and>
      filter (\<lambda>c. c \<noteq> ''cds-active-search'') (class_list (blur_handler d ! i))
        = filter (\<lambda>c. c \<noteq> ''cds-active-search'') (class_list (d ! i)) \<and>
      (''cds-navbar-form'' \<notin> set (class_list (d ! i)) \<longrightarrow>
         focus_handler d ! i = d ! i \<and> blur_handler d ! i = d ! i)"
    if "i < length d" for i
    using that
    by (simp add: focus_handler_nth blur_handler_nth filter_add_token filter_remove_token)
  show ?thesis
    using elems by (simp add: focus_handler_length blur_handler_length)
qed

theorem handlers_change_only_active_class_witness:
  "1 < length home_page \<and>
   ''cds-navbar-form'' \<notin> set (class_list (home_page ! 1)) \<and>
   focus_handler home_page ! 1 = home_page ! 1 \<and>
   blur_handler home_page ! 1 = home_page ! 1 \<and>
   filter (\<lambda>c. c \<noteq> ''cds-active-search'') (class_list (focus_handler home_page ! 1))
     = filter (\<lambda>c. c \<noteq> ''cds-active-search'') (class_list (home_page ! 1))"
proof -
  have h1: "1 < length home_page" by code_simp
  have h2: "''cds-navbar-form'' \<notin> set (class_list (home_page ! 1))" by code_simp
  show ?thesis
    using h1 h2 handlers_change_only_active_class [of home_page] by blast
qed

text \<open>
  Claim C10. The handlers select by \<^verbatim>\<open>.cds-navbar-form\<close> in the document as it is when
  the event arrives, and act on every element selected: when nothing matches both handlers
  return the document unchanged, and otherwise the focus handler puts the active class on
  each matching element and the blur handler takes it off each of them.
\<close>

theorem handlers_act_on_every_match:
  "(select_class d ''cds-navbar-form'' = [] \<longrightarrow> focus_handler d = d \<and> blur_handler d = d) \<and>
   (\<forall>i\<in>set (select_class d ''cds-navbar-form'').
      ''cds-active-search'' \<in> set (class_list (focus_handler d ! i)) \<and>
      ''cds-active-search'' \<notin> set (class_list (blur_handler d ! i))) \<and>
   (n \<in> set (focus_bound p) \<longrightarrow>
      dom (fire fw (Focus n) p)
        = addClass ''cds-active-search'' (select_class (dom p) ''cds-navbar-form'') (dom p)) \<and>
   (n \<in> set (blur_bound p) \<longrightarrow>
      dom (fire fw (Blur n) p)
        = removeClass ''cds-active-search'' (select_class (dom p) ''cds-navbar-form'') (dom p))"
proof (intro conjI impI ballI)
  assume "select_class d ''cds-navbar-form'' = []"
  then show "focus_handler d = d" and "blur_handler d = d"
    by (simp_all add: focus_handler_def blur_handler_def addClass_def removeClass_def on_each_def)
next
  fix i
  assume "i \<in> set (select_class d ''cds-navbar-form'')"
  then have i: "i < length d" "''cds-navbar-form'' \<in> set (class_list (d ! i))"
    by (simp_all add: select_class_set)
  show "''cds-active-search'' \<in> set (class_list (focus_handler d ! i))"
    using i by (simp add: focus_handler_nth add_token_set)
  show "''cds-active-search'' \<notin> set (class_list (blur_handler d ! i))"
    using i by (simp add: blur_handler_nth remove_token_set)
next
  assume "n \<in> set (focus_bound p)"
  then have "fire fw (Focus n) p = p\<lparr>dom := focus_handler (dom p)\<rparr>"
    by (rule fire_Focus_bound)
  then show "dom (fire fw (Focus n) p)
        = addClass ''cds-active-search'' (select_class (dom p) ''cds-navbar-form'') (dom p)"
    by (simp add: focus_handler_def del: fire.simps)
next
  assume "n \<in> set (blur_bound p)"
  then have "fire fw (Blur n) p = p\<lparr>dom := blur_handler (dom p)\<rparr>"
    by (rule fire_Blur_bound)
  then show "dom (fire fw (Blur n) p)
        = removeClass ''cds-active-search'' (select_class (dom p) ''cds-navbar-form'') (dom p)"
    by (simp add: blur_handler_def del: fire.simps)
qed

theorem handlers_act_on_every_match_witness:
  "select_class plain_page ''cds-navbar-form'' = [] \<and>
   focus_handler plain_page = plain_page \<and> blur_handler plain_page = plain_page \<and>
   select_class full_page ''cds-navbar-form'' = [0, 5] \<and>
   ''cds-active-search'' \<in> set (class_list (focus_handler full_page ! 0)) \<and>
   ''cds-active-search'' \<in> set (class_list (focus_handler full_page ! 5)) \<and>
   ''cds-active-search'' \<notin> set (class_list (blur_handler full_page ! 0)) \<and>
   ''cds-active-search'' \<notin> set (class_list (blur_handler full_page ! 5)) \<and>
   1 \<in> set (focus_bound (run always_returns [NavbarReady] (init_page full_page))) \<and>
   1 \<in> set (blur_bound (run always_returns [NavbarReady] (init_page full_page))) \<and>
   dom (fire always_returns (Focus 1) (run always_returns [NavbarReady] (init_page full_page)))
     = addClass ''cds-active-search'' [0, 5] full_page \<and>
   dom (fire always_returns (Blur 1) (run always_returns [NavbarReady] (init_page full_page)))
     = removeClass ''cds-active-search'' [0, 5] full_page"
proof -
  have h1: "select_class plain_page ''cds-navbar-form'' = []" by code_simp
  have h2: "select_class full_page ''cds-navbar-form'' = [0, 5]" by code_simp
  have h3: "1 \<in> set (focus_bound (run always_returns [NavbarReady] (init_page full_page)))"
    by code_simp
  have h4: "1 \<in> set (blur_bound (run always_returns [NavbarReady] (init_page full_page)))"
    by code_simp
  have h5: "dom (run always_returns [NavbarReady] (init_page full_page)) = full_page"
    by code_simp
  have a: "focus_handler plain_page = plain_page \<and> blur_handler plain_page = plain_page"
    using h1 handlers_act_on_every_match [of plain_page] by blast
  have b: "''cds-active-search'' \<in> set (class_list (focus_handler full_page ! 0)) \<and>
           ''cds-active-search'' \<in> set (class_list (focus_handler full_page ! 5)) \<and>
           ''cds-active-search'' \<notin> set (class_list (blur_handler full_page ! 0)) \<and>
           ''cds-active-search'' \<notin> set (class_list (blur_handler full_page ! 5))"
    using handlers_act_on_every_match [of full_page] unfolding h2 by simp
  have c: "dom (fire always_returns (Focus 1)
                  (run always_returns [NavbarReady] (init_page full_page)))
             = addClass ''cds-active-search'' [0, 5] full_page \<and>
           dom (fire always_returns (Blur 1)
                  (run always_returns [NavbarReady] (init_page full_page)))
             = removeClass ''cds-active-search'' [0, 5] full_page"
    using h3 h4
      handlers_act_on_every_match
        [of _ 1 "run always_returns [NavbarReady] (init_page full_page)" always_returns]
    unfolding h5 h2 by blast
  show ?thesis
    using h1 h2 h3 h4 a b c by blast
qed

end
